theory Spec2Isabelle
  imports Main "HOL-Library.Word"
begin

section \<open>JavaScript primitives used by the page\<close>

text \<open>
  The page script \<^verbatim>\<open>index.tsx\<close> is event wiring around a remote generative service.
  The strings the script only compares with ASCII separators or passes on (data URLs,
  MIME types, locators, the texts it shows) are lists of \<^typ>\<open>char\<close>, a code unit below
  256 read as Latin-1, so the accented letters of the user-facing messages are single
  characters. The prompt is text the user types and the script trims: it is a list of
  UTF-16 code units, 16-bit words, as a JavaScript string is.
  A value that may be \<^verbatim>\<open>null\<close> or \<^verbatim>\<open>undefined\<close> is an \<^typ>\<open>'a option\<close>.
\<close>

text \<open>Truthiness of a possibly missing string: \<^verbatim>\<open>null\<close>, \<^verbatim>\<open>undefined\<close> and the empty
  string are falsy.\<close>

definition truthy :: "string option \<Rightarrow> bool" where
  "truthy v = (case v of None \<Rightarrow> False | Some str \<Rightarrow> str \<noteq> [])"

text \<open>Array indexing \<^verbatim>\<open>xs[i]\<close>: \<^verbatim>\<open>undefined\<close> out of range.\<close>

definition at :: "'a list \<Rightarrow> nat \<Rightarrow> 'a option" where
  "at xs i = (if i < length xs then Some (xs ! i) else None)"

text \<open>\<^verbatim>\<open>String.prototype.split\<close> with a one-character separator: the pieces between the
  occurrences of the separator, so the empty string gives one empty piece.\<close>

fun js_split :: "char \<Rightarrow> string \<Rightarrow> string list" where
  "js_split sep [] = [[]]"
| "js_split sep (c # cs) =
     (if c = sep then [] # js_split sep cs
      else (case js_split sep cs of
              [] \<Rightarrow> [[c]]
            | w # ws \<Rightarrow> (c # w) # ws))"

type_synonym code_unit = "16 word"

text \<open>A text of code units below 256, as a JavaScript string.\<close>

definition units :: "string \<Rightarrow> code_unit list" where
  "units str = map of_char str"

text \<open>\<^verbatim>\<open>String.prototype.trim\<close> removes white space and line terminators at both ends.
  White space is tab, vertical tab, form feed, space, no-break space, the byte order mark
  U+FEFF and the other space separators (U+1680, U+2000 to U+200A, U+202F, U+205F,
  U+3000); the line terminators are line feed, carriage return, U+2028 and U+2029. Each
  is one code unit.\<close>

definition is_whitespace :: "code_unit \<Rightarrow> bool" where
  "is_whitespace c =
     (c \<in> set [0x0009, 0x000A, 0x000B, 0x000C, 0x000D, 0x0020, 0x00A0, 0x1680,
               0x2000, 0x2001, 0x2002, 0x2003, 0x2004, 0x2005, 0x2006, 0x2007, 0x2008,
               0x2009, 0x200A, 0x2028, 0x2029, 0x202F, 0x205F, 0x3000, 0xFEFF])"

definition trim :: "code_unit list \<Rightarrow> code_unit list" where
  "trim str = rev (dropWhile is_whitespace (rev (dropWhile is_whitespace str)))"

datatype js_error = Error string | TypeError string


section \<open>Data exchanged with the remote service\<close>

text \<open>The response of \<^verbatim>\<open>generateContent\<close>: optional candidates, the first one's
  \<^verbatim>\<open>content.parts\<close> (missing when the service returns a candidate without content), and
  parts that carry inline data, text, or neither.\<close>

datatype inline_data = InlineData (mimeType: string) (data: string)

datatype part = Part (inlineData: "inline_data option") (part_text: "string option")

datatype candidate = Candidate (content_parts: "part list option")

datatype response = Response (candidates: "candidate list option")

text \<open>The handle of a video job, as \<^verbatim>\<open>generateVideos\<close> and \<^verbatim>\<open>getVideosOperation\<close>
  return it; every level below \<^verbatim>\<open>done\<close> is optional, as the optional chaining of the
  source expects.\<close>

datatype video = MkVideo (uri: "string option")

datatype generated_video = GeneratedVideo (video: "video option")

datatype videos_response = VideosResponse (generatedVideos: "generated_video list option")

datatype operation = Operation (is_done: bool) (op_response: "videos_response option")

text \<open>\<^verbatim>\<open>operation.response?.generatedVideos?.[0]?.video?.uri\<close>\<close>

definition downloadLink :: "operation \<Rightarrow> string option" where
  "downloadLink operation =
     Option.bind (op_response operation) (\<lambda>r.
     Option.bind (generatedVideos r) (\<lambda>vs.
     Option.bind (at vs 0) (\<lambda>g.
     Option.bind (video g) uri)))"


section \<open>Page state\<close>

datatype mode = Edit | Video

datatype ptag = Loader_text | Model_text | Error_text

text \<open>The children the script puts into the result container: the loader element, a
  paragraph (the status line with id \<^verbatim>\<open>loader-text\<close>, a model annotation of class
  \<^verbatim>\<open>model-text\<close>, or a message of class \<^verbatim>\<open>error\<close>), an image with source and alternative
  text, and a video with its source (controls, autoplay, loop and muted are constants).\<close>

datatype element =
    Loader
  | Paragraph ptag string
  | ImageElement string "code_unit list"
  | VideoElement string

text \<open>What the script asks of its surroundings, in the order it asks: the two generation
  calls with image payload, MIME type and prompt, a timeout of so many milliseconds, the
  status query for a job handle, and the fetch of a locator.\<close>

datatype action =
    GenerateContent string string "code_unit list"
  | GenerateVideos "code_unit list" string string
  | SetTimeout nat
  | GetVideosOperation operation
  | Fetch string

text \<open>
  The five module variables, the access key the build substitutes for
  \<^verbatim>\<open>process.env.API_KEY\<close>, the properties of the page elements the script reads or
  writes, and the browser's side: the interval timers that are running (identifier and the
  \<^verbatim>\<open>messageIndex\<close> of the callback's closure), the next timer identifier, the alerts
  shown, the console, the requests issued and the downloads started.
\<close>

record state =
  imageBase64 :: "string option"
  imageMimeType :: "string option"
  resultUrl :: "string option"
  currentMode :: mode
  loadingInterval :: "nat option"
  API_KEY :: string
  originalImage_src :: "string option"
  originalImage_shown :: bool
  uploadPlaceholder_hidden :: bool
  promptInput_value :: "code_unit list"
  actionButton_text :: string
  actionButton_disabled :: bool
  resultContainer :: "element list"
  resultPlaceholder_hidden :: bool
  loader_hidden :: bool
  downloadButton_text :: string
  downloadButton_hidden :: bool
  timers :: "(nat \<times> nat) list"
  next_timer :: nat
  alerts :: "string list"
  console :: "(string \<times> js_error) list"
  trace :: "action list"
  downloads :: "(string \<times> string) list"


section \<open>User-facing texts\<close>

definition aacute :: string where "aacute = [CHR 0xE1]"
definition eacute :: string where "eacute = [CHR 0xE9]"
definition oacute :: string where "oacute = [CHR 0xF3]"
definition uacute :: string where "uacute = [CHR 0xFA]"
definition iexcl :: string where "iexcl = [CHR 0xA1]"

definition initial_prompt :: "code_unit list" where
  "initial_prompt = units ''modifica la imagen y dale un aspecto profesional, donde los colores destaquen y resalten lo mejor de la fotografia''"

definition msg_read_failed :: string where
  "msg_read_failed = ''No se pudo leer el archivo seleccionado. Por favor, intenta con otra imagen.''"

definition msg_no_image :: string where
  "msg_no_image = ''Por favor, sube una imagen primero.''"

definition msg_no_prompt :: string where
  "msg_no_prompt = ''Por favor, ingresa una instrucci'' @ oacute @ ''n.''"

definition msg_no_result :: string where
  "msg_no_result = ''No hay resultado para descargar.''"

definition msg_no_content :: string where
  "msg_no_content = ''El modelo no devolvi'' @ oacute @ '' ning'' @ uacute @ ''n contenido.''"

definition msg_no_response :: string where
  "msg_no_response = ''No hubo respuesta del modelo. Por favor, int'' @ eacute @ ''ntalo de nuevo.''"

definition msg_edit_failed :: string where
  "msg_edit_failed = ''Ocurri'' @ oacute @ '' un error en la edici'' @ oacute
     @ ''n. Por favor, revisa la consola.''"

definition msg_no_video :: string where
  "msg_no_video = ''No se pudo generar el video. Int'' @ eacute @ ''ntalo de nuevo.''"

definition msg_video_failed :: string where
  "msg_video_failed = ''Ocurri'' @ oacute @ '' un error en la generaci'' @ oacute
     @ ''n del video. Por favor, revisa la consola.''"

definition loadingMessages :: "string list" where
  "loadingMessages =
     [''Iniciando la generaci'' @ oacute @ ''n de video...'',
      ''El modelo est'' @ aacute @ '' imaginando tu escena...'',
      ''Renderizando los fotogramas (esto puede tardar unos minutos)...'',
      ''Aplicando los toques finales...'',
      ''Casi listo, '' @ iexcl @ ''la espera valdr'' @ aacute @ '' la pena!'']"


section \<open>Loading/status presenter and error presenter\<close>

text \<open>\<^verbatim>\<open>clearInterval\<close> stops the timer with that identifier.\<close>

definition clearInterval :: "nat \<Rightarrow> state \<Rightarrow> state" where
  "clearInterval t s = s\<lparr>timers := filter (\<lambda>(t', i). t' \<noteq> t) (timers s)\<rparr>"

text \<open>\<^verbatim>\<open>setLoading(isLoading, message)\<close>. The test \<^verbatim>\<open>if (loadingInterval)\<close> is falsy for
  \<^verbatim>\<open>undefined\<close> and for the identifier 0.\<close>

definition setLoading :: "bool \<Rightarrow> string option \<Rightarrow> state \<Rightarrow> state" where
  "setLoading isLoading message s =
     (let s1 = (case loadingInterval s of
                  None \<Rightarrow> s
                | Some t \<Rightarrow> if t = 0 then s else (clearInterval t s)\<lparr>loadingInterval := None\<rparr>)
      in if isLoading then
           s1\<lparr>resultContainer :=
                 Loader # (case message of
                             None \<Rightarrow> []
                           | Some m \<Rightarrow> if m = [] then [] else [Paragraph Loader_text m]),
               downloadButton_hidden := True,
               resultUrl := None,
               loader_hidden := False,
               actionButton_disabled := True\<rparr>
         else s1\<lparr>loader_hidden := True, actionButton_disabled := False\<rparr>)"

definition displayError :: "string \<Rightarrow> state \<Rightarrow> state" where
  "displayError message s =
     s\<lparr>resultContainer := [Paragraph Error_text message], downloadButton_hidden := True\<rparr>"


section \<open>Media encoder\<close>

text \<open>The body of \<^verbatim>\<open>reader.onload\<close> on the data URL \<open>result\<close>. It throws when the comma
  split does not give two pieces, and when the header has no colon (\<^verbatim>\<open>split(':')[1]\<close> is
  then \<^verbatim>\<open>undefined\<close>, and calling \<^verbatim>\<open>split\<close> on it is a type error). Nothing is assigned
  before either throw.\<close>

definition reader_onload :: "string \<Rightarrow> state \<Rightarrow> js_error + state" where
  "reader_onload result s =
     (let dataUrlParts = js_split CHR '','' result in
      if length dataUrlParts \<noteq> 2 then Inl (Error ''Invalid data URL format'')
      else (case Option.bind (at dataUrlParts 0) (\<lambda>h. at (js_split CHR '':'' h) 1) of
              None \<Rightarrow> Inl (TypeError ''Cannot read properties of undefined (reading split)'')
            | Some p \<Rightarrow>
                (let mimeTypePart = at (js_split CHR '';'' p) 0 in
                 Inr (s\<lparr>imageBase64 := at dataUrlParts 1,
                        imageMimeType := mimeTypePart,
                        originalImage_src := Some result,
                        originalImage_shown := True,
                        uploadPlaceholder_hidden := True,
                        actionButton_disabled := False\<rparr>))))"

text \<open>A selected file, seen through the file reader: what \<^verbatim>\<open>readAsDataURL\<close> throws on
  the spot, if anything, and the data URL it later hands to \<^verbatim>\<open>onload\<close>.\<close>

record picked_file =
  read_throws :: "js_error option"
  data_url :: string

text \<open>What a handler waits for when it returns control to the browser: the file reader,
  the reply to \<^verbatim>\<open>generateContent\<close> (the prompt is a local of the suspended call), the reply
  to \<^verbatim>\<open>generateVideos\<close>, the ten-second timeout (with the job handle held in
  \<^verbatim>\<open>operation\<close>), the reply to \<^verbatim>\<open>getVideosOperation\<close>, the fetch and the body of the
  fetched response.\<close>

datatype task =
    Reading string
  | AwaitGenerateContent "code_unit list"
  | AwaitGenerateVideos
  | AwaitTimeout operation
  | AwaitGetVideosOperation
  | AwaitFetch
  | AwaitBlob

text \<open>What the browser delivers to a waiting handler. \<open>Blob b\<close> is the body of the fetched
  response, named by the identifier the browser gives its object URL.\<close>

datatype reply =
    Loaded
  | Rejected js_error
  | Content response
  | Job operation
  | Elapsed
  | Fetched
  | Blob string

text \<open>The \<^verbatim>\<open>change\<close> listener of the file input, up to its return. The \<^verbatim>\<open>try\<close> block
  covers the construction of the reader, the assignment of \<^verbatim>\<open>onload\<close> and the call of
  \<^verbatim>\<open>readAsDataURL\<close>; the callback itself runs later, from the event loop, outside of it.\<close>

definition imageUpload_change :: "picked_file option \<Rightarrow> state \<Rightarrow> state \<times> task option" where
  "imageUpload_change selected s =
     (case selected of
        None \<Rightarrow> (s, None)
      | Some f \<Rightarrow>
          (case read_throws f of
             Some e \<Rightarrow>
               (s\<lparr>console := console s @ [(''Error reading file:'', e)],
                  alerts := alerts s @ [msg_read_failed]\<rparr>, None)
           | None \<Rightarrow> (s, Some (Reading (data_url f)))))"

text \<open>The browser calling \<^verbatim>\<open>onload\<close>: an exception of the callback reaches no handler of
  the script and is reported on the console by the browser.\<close>

definition deliver_load :: "string \<Rightarrow> state \<Rightarrow> state" where
  "deliver_load result s =
     (case reader_onload result s of
        Inl e \<Rightarrow> s\<lparr>console := console s @ [(''Uncaught'', e)]\<rparr>
      | Inr s' \<Rightarrow> s')"


section \<open>Mode selector, prompt examples, download\<close>

definition modeEdit_change :: "bool \<Rightarrow> state \<Rightarrow> state" where
  "modeEdit_change checked s =
     (if checked then
        s\<lparr>currentMode := Edit,
          actionButton_text := ''Editar Imagen'',
          downloadButton_text := ''Descargar Imagen''\<rparr>
      else s)"

definition modeVideo_change :: "bool \<Rightarrow> state \<Rightarrow> state" where
  "modeVideo_change checked s =
     (if checked then
        s\<lparr>currentMode := Video,
          actionButton_text := ''Crear Video'',
          downloadButton_text := ''Descargar Video''\<rparr>
      else s)"

definition promptExamples_change :: "code_unit list \<Rightarrow> state \<Rightarrow> state" where
  "promptExamples_change selectedValue s =
     (if selectedValue \<noteq> [] then s\<lparr>promptInput_value := selectedValue\<rparr> else s)"

definition downloadButton_click :: "state \<Rightarrow> state" where
  "downloadButton_click s =
     (case resultUrl s of
        None \<Rightarrow> s\<lparr>alerts := alerts s @ [msg_no_result]\<rparr>
      | Some url \<Rightarrow>
          if url = [] then s\<lparr>alerts := alerts s @ [msg_no_result]\<rparr>
          else s\<lparr>downloads := downloads s @
                 [(url, if currentMode s = Edit then ''imagen-editada.png''
                        else ''video-generado.mp4'')]\<rparr>)"


section \<open>Request orchestrator\<close>

subsection \<open>Image editing\<close>

text \<open>\<^verbatim>\<open>editImageWithGemini\<close> up to its \<^verbatim>\<open>await\<close>: the busy indicator is started and the
  request is issued. (The construction of the service client is taken to succeed.)\<close>

definition editImageWithGemini_start ::
  "code_unit list \<Rightarrow> string \<Rightarrow> string \<Rightarrow> state \<Rightarrow> state \<times> task option" where
  "editImageWithGemini_start prompt base64Data mimeType' s =
     (let s1 = setLoading True None s
      in (s1\<lparr>trace := trace s1 @ [GenerateContent base64Data mimeType' prompt]\<rparr>,
          Some (AwaitGenerateContent prompt)))"

text \<open>The template \<^verbatim>\<open>data:${mimeType};base64,${data}\<close>.\<close>

definition imageUrl :: "inline_data \<Rightarrow> string" where
  "imageUrl d = ''data:'' @ mimeType d @ '';base64,'' @ data d"

text \<open>The loop over the parts of the first candidate, with the local \<^verbatim>\<open>foundContent\<close>.\<close>

fun render_parts :: "code_unit list \<Rightarrow> part list \<Rightarrow> state \<Rightarrow> bool \<Rightarrow> state \<times> bool" where
  "render_parts prompt [] s foundContent = (s, foundContent)"
| "render_parts prompt (p # ps) s foundContent =
     (case inlineData p of
        Some d \<Rightarrow>
          render_parts prompt ps
            (s\<lparr>resultContainer := resultContainer s @ [ImageElement (imageUrl d) prompt],
               resultUrl := Some (imageUrl d),
               downloadButton_hidden := False\<rparr>) True
      | None \<Rightarrow>
          if truthy (part_text p) then
            (case part_text p of
               Some t \<Rightarrow>
                 render_parts prompt ps
                   (s\<lparr>resultContainer := resultContainer s @ [Paragraph Model_text t]\<rparr>) True
             | None \<Rightarrow> render_parts prompt ps s foundContent)
          else render_parts prompt ps s foundContent)"

text \<open>The \<^verbatim>\<open>catch\<close> clause of \<^verbatim>\<open>editImageWithGemini\<close>.\<close>

definition edit_catch :: "js_error \<Rightarrow> state \<Rightarrow> state" where
  "edit_catch e s =
     displayError msg_edit_failed
       (s\<lparr>console := console s @ [(''Error calling Gemini API for image editing:'', e)]\<rparr>)"

text \<open>The \<^verbatim>\<open>try\<close> block after the reply has arrived. Reading \<^verbatim>\<open>content.parts\<close> of a
  candidate that has none is a type error, caught like any other.\<close>

definition render_response :: "code_unit list \<Rightarrow> response \<Rightarrow> state \<Rightarrow> state" where
  "render_response prompt r s =
     (let s1 = s\<lparr>resultContainer := []\<rparr>
      in case candidates r of
           Some (c # cs) \<Rightarrow>
             (case content_parts c of
                None \<Rightarrow>
                  edit_catch (TypeError ''Cannot read properties of undefined (reading parts)'') s1
              | Some ps \<Rightarrow>
                  (case render_parts prompt ps s1 False of
                     (s2, foundContent) \<Rightarrow>
                       if foundContent then s2 else displayError msg_no_content s2))
         | _ \<Rightarrow> displayError msg_no_response s1)"

subsection \<open>Video generation\<close>

text \<open>\<^verbatim>\<open>window.setInterval\<close> starts a timer under the next identifier; its callback's
  \<^verbatim>\<open>messageIndex\<close> starts at 0.\<close>

definition setInterval :: "state \<Rightarrow> nat \<times> state" where
  "setInterval s =
     (next_timer s, s\<lparr>timers := timers s @ [(next_timer s, 0)], next_timer := Suc (next_timer s)\<rparr>)"

text \<open>\<^verbatim>\<open>generateVideoWithGemini\<close> up to its first \<^verbatim>\<open>await\<close>.\<close>

definition generateVideoWithGemini_start ::
  "code_unit list \<Rightarrow> string \<Rightarrow> string \<Rightarrow> state \<Rightarrow> state \<times> task option" where
  "generateVideoWithGemini_start prompt base64Data mimeType' s =
     (let s1 = setLoading True (at loadingMessages 0) s;
          (t, s2) = setInterval s1;
          s3 = s2\<lparr>loadingInterval := Some t\<rparr>
      in (s3\<lparr>trace := trace s3 @ [GenerateVideos prompt base64Data mimeType']\<rparr>,
          Some AwaitGenerateVideos))"

text \<open>The callback of the interval timer \<open>t\<close>: advance the index cyclically and, if an
  element with id \<^verbatim>\<open>loader-text\<close> is in the document, set its text.\<close>

fun set_loader_text :: "string \<Rightarrow> element list \<Rightarrow> element list" where
  "set_loader_text msg [] = []"
| "set_loader_text msg (Paragraph Loader_text old # es) = Paragraph Loader_text msg # es"
| "set_loader_text msg (e # es) = e # set_loader_text msg es"

definition tick :: "nat \<Rightarrow> state \<Rightarrow> state" where
  "tick t s =
     (case map_of (timers s) t of
        None \<Rightarrow> s
      | Some messageIndex \<Rightarrow>
          (let i = (messageIndex + 1) mod length loadingMessages
           in s\<lparr>timers := map (\<lambda>(t', j). if t' = t then (t', i) else (t', j)) (timers s),
                resultContainer :=
                  (case at loadingMessages i of
                     None \<Rightarrow> resultContainer s
                   | Some msg \<Rightarrow> set_loader_text msg (resultContainer s))\<rparr>))"

definition video_catch :: "js_error \<Rightarrow> state \<Rightarrow> state" where
  "video_catch e s =
     displayError msg_video_failed
       (s\<lparr>console := console s @ [(''Error calling Gemini API for video generation:'', e)]\<rparr>)"

text \<open>The head of the polling loop with the current job handle, and what follows the loop:
  not done, wait ten seconds; done with a locator, fetch it with the key appended; done
  without one, show the message and leave through \<^verbatim>\<open>finally\<close>.\<close>

definition check_operation :: "operation \<Rightarrow> state \<Rightarrow> state \<times> task option" where
  "check_operation operation s =
     (if \<not> is_done operation then
        (s\<lparr>trace := trace s @ [SetTimeout 10000]\<rparr>, Some (AwaitTimeout operation))
      else if truthy (downloadLink operation) then
        (case downloadLink operation of
           Some link \<Rightarrow>
             (s\<lparr>trace := trace s @ [Fetch (link @ ''&key='' @ API_KEY s)]\<rparr>, Some AwaitFetch)
         | None \<Rightarrow> (setLoading False None (displayError msg_no_video s), None))
      else (setLoading False None (displayError msg_no_video s), None))"

text \<open>\<^verbatim>\<open>URL.createObjectURL\<close> on the fetched body.\<close>

definition createObjectURL :: "string \<Rightarrow> string" where
  "createObjectURL b = ''blob:'' @ b"

definition show_video :: "string \<Rightarrow> state \<Rightarrow> state" where
  "show_video videoBlobUrl s =
     s\<lparr>resultContainer := [VideoElement videoBlobUrl],
       resultUrl := Some videoBlobUrl,
       downloadButton_hidden := False\<rparr>"

subsection \<open>Resuming a suspended handler\<close>

text \<open>One step of a waiting handler on the reply it waits for, up to its next \<^verbatim>\<open>await\<close>
  (the new task) or its end (no task). Both generation functions end through
  \<^verbatim>\<open>finally\<close>, that is \<^verbatim>\<open>setLoading(false)\<close>. A reply of a kind the task does not wait
  for is not for it: it keeps waiting.\<close>

fun resume :: "task \<Rightarrow> reply \<Rightarrow> state \<Rightarrow> state \<times> task option" where
  "resume (Reading result) Loaded s = (deliver_load result s, None)"
| "resume (AwaitGenerateContent prompt) (Content r) s =
     (setLoading False None (render_response prompt r s), None)"
| "resume (AwaitGenerateContent prompt) (Rejected e) s =
     (setLoading False None (edit_catch e s), None)"
| "resume AwaitGenerateVideos (Job operation) s = check_operation operation s"
| "resume AwaitGenerateVideos (Rejected e) s = (setLoading False None (video_catch e s), None)"
| "resume (AwaitTimeout operation) Elapsed s =
     (s\<lparr>trace := trace s @ [GetVideosOperation operation]\<rparr>, Some AwaitGetVideosOperation)"
| "resume AwaitGetVideosOperation (Job operation) s = check_operation operation s"
| "resume AwaitGetVideosOperation (Rejected e) s =
     (setLoading False None (video_catch e s), None)"
| "resume AwaitFetch Fetched s = (s, Some AwaitBlob)"
| "resume AwaitFetch (Rejected e) s = (setLoading False None (video_catch e s), None)"
| "resume AwaitBlob (Blob b) s =
     (setLoading False None (show_video (createObjectURL b) s), None)"
| "resume AwaitBlob (Rejected e) s = (setLoading False None (video_catch e s), None)"
| "resume t r s = (s, Some t)"

text \<open>A handler run on the replies it receives, in order: it ends with no task when it has
  returned, and with the task it is suspended at when the replies are used up first.\<close>

fun run :: "task option \<Rightarrow> reply list \<Rightarrow> state \<Rightarrow> state \<times> task option" where
  "run None rs s = (s, None)"
| "run (Some t) [] s = (s, Some t)"
| "run (Some t) (r # rs) s = (case resume t r s of (s', t') \<Rightarrow> run t' rs s')"

definition editImageWithGemini ::
  "code_unit list \<Rightarrow> string \<Rightarrow> string \<Rightarrow> reply list \<Rightarrow> state \<Rightarrow> state \<times> task option" where
  "editImageWithGemini prompt base64Data mimeType' rs s =
     (case editImageWithGemini_start prompt base64Data mimeType' s of
        (s', t) \<Rightarrow> run t rs s')"

definition generateVideoWithGemini ::
  "code_unit list \<Rightarrow> string \<Rightarrow> string \<Rightarrow> reply list \<Rightarrow> state \<Rightarrow> state \<times> task option" where
  "generateVideoWithGemini prompt base64Data mimeType' rs s =
     (case generateVideoWithGemini_start prompt base64Data mimeType' s of
        (s', t) \<Rightarrow> run t rs s')"

text \<open>The \<^verbatim>\<open>click\<close> listener of the action button, up to the \<^verbatim>\<open>await\<close> inside the function
  it calls.\<close>

definition actionButton_click :: "state \<Rightarrow> state \<times> task option" where
  "actionButton_click s =
     (case imageBase64 s of
        None \<Rightarrow> (s\<lparr>alerts := alerts s @ [msg_no_image]\<rparr>, None)
      | Some base64Data \<Rightarrow>
          (case imageMimeType s of
             None \<Rightarrow> (s\<lparr>alerts := alerts s @ [msg_no_image]\<rparr>, None)
           | Some mimeType' \<Rightarrow>
               if base64Data = [] \<or> mimeType' = [] then
                 (s\<lparr>alerts := alerts s @ [msg_no_image]\<rparr>, None)
               else
                 (let prompt = promptInput_value s
                  in if trim prompt = [] then (s\<lparr>alerts := alerts s @ [msg_no_prompt]\<rparr>, None)
                     else
                       (let s1 = s\<lparr>resultPlaceholder_hidden := True\<rparr>
                        in if currentMode s1 = Edit
                           then editImageWithGemini_start prompt base64Data mimeType' s1
                           else generateVideoWithGemini_start prompt base64Data mimeType' s1))))"

text \<open>\<open>execute\<close> of the specification: the click and the whole cycle it starts.\<close>

definition execute :: "reply list \<Rightarrow> state \<Rightarrow> state \<times> task option" where
  "execute rs s = (case actionButton_click s of (s', t) \<Rightarrow> run t rs s')"


section \<open>The page as an event-driven system\<close>

text \<open>The script is single-threaded: a listener or a resumed handler runs up to its next
  \<^verbatim>\<open>await\<close> without interruption, and between two such runs the browser may dispatch
  any other event. The page is the state together with the handlers that are waiting.\<close>

datatype event =
    ModeEditChange bool
  | ModeVideoChange bool
  | PromptExamplesChange "code_unit list"
  | PromptInput "code_unit list"
  | ImageUploadChange "picked_file option"
  | ActionClick
  | DownloadClick
  | Deliver nat reply
  | Tick nat

text \<open>Whether the task waits for a reply of this kind.\<close>

fun accepts :: "task \<Rightarrow> reply \<Rightarrow> bool" where
  "accepts (Reading result) Loaded = True"
| "accepts (AwaitGenerateContent prompt) (Content r) = True"
| "accepts (AwaitGenerateContent prompt) (Rejected e) = True"
| "accepts AwaitGenerateVideos (Job operation) = True"
| "accepts AwaitGenerateVideos (Rejected e) = True"
| "accepts (AwaitTimeout operation) Elapsed = True"
| "accepts AwaitGetVideosOperation (Job operation) = True"
| "accepts AwaitGetVideosOperation (Rejected e) = True"
| "accepts AwaitFetch Fetched = True"
| "accepts AwaitFetch (Rejected e) = True"
| "accepts AwaitBlob (Blob b) = True"
| "accepts AwaitBlob (Rejected e) = True"
| "accepts t r = False"

definition pending :: "task option \<Rightarrow> task list" where
  "pending t = (case t of None \<Rightarrow> [] | Some t' \<Rightarrow> [t'])"

text \<open>One event. A disabled button dispatches no click. \<open>Deliver i r\<close> resumes the \<open>i\<close>-th
  waiting handler with \<open>r\<close>; \<open>Tick t\<close> is the interval timer \<open>t\<close> firing; \<open>PromptInput\<close> is
  the user typing into the prompt field.\<close>

fun fire :: "event \<Rightarrow> state \<times> task list \<Rightarrow> state \<times> task list" where
  "fire (ModeEditChange checked) (s, ts) = (modeEdit_change checked s, ts)"
| "fire (ModeVideoChange checked) (s, ts) = (modeVideo_change checked s, ts)"
| "fire (PromptExamplesChange v) (s, ts) = (promptExamples_change v s, ts)"
| "fire (PromptInput v) (s, ts) = (s\<lparr>promptInput_value := v\<rparr>, ts)"
| "fire (ImageUploadChange f) (s, ts) =
     (case imageUpload_change f s of (s', t) \<Rightarrow> (s', ts @ pending t))"
| "fire ActionClick (s, ts) =
     (if actionButton_disabled s then (s, ts)
      else (case actionButton_click s of (s', t) \<Rightarrow> (s', ts @ pending t)))"
| "fire DownloadClick (s, ts) = (downloadButton_click s, ts)"
| "fire (Deliver i r) (s, ts) =
     (if i < length ts \<and> accepts (ts ! i) r then
        (case resume (ts ! i) r s of (s', t) \<Rightarrow> (s', take i ts @ pending t @ drop (Suc i) ts))
      else (s, ts))"
| "fire (Tick t) (s, ts) = (tick t s, ts)"

fun exec :: "event list \<Rightarrow> state \<times> task list \<Rightarrow> state \<times> task list" where
  "exec [] p = p"
| "exec (e # es) p = exec es (fire e p)"

text \<open>The page as loaded: the module variables as the script initialises them, the prompt
  it sets, and the markup's side (not among the sources) with nothing shown yet, the action
  button waiting for an upload and the download button hidden.\<close>

definition initial :: "string \<Rightarrow> state" where
  "initial key =
     \<lparr>imageBase64 = None, imageMimeType = None, resultUrl = None, currentMode = Edit,
      loadingInterval = None, API_KEY = key,
      originalImage_src = None, originalImage_shown = False,
      uploadPlaceholder_hidden = False, promptInput_value = initial_prompt,
      actionButton_text = ''Editar Imagen'', actionButton_disabled = True,
      resultContainer = [], resultPlaceholder_hidden = False, loader_hidden = True,
      downloadButton_text = ''Descargar Imagen'', downloadButton_hidden = True,
      timers = [], next_timer = 1, alerts = [], console = [], trace = [], downloads = []\<rparr>"


section \<open>Notions of the specification\<close>

text \<open>The substring before the first occurrence of a character (all of the string when it
  does not occur) and the substring after it.\<close>

definition before_first :: "char \<Rightarrow> string \<Rightarrow> string" where
  "before_first c str = takeWhile (\<lambda>x. x \<noteq> c) str"

definition after_first :: "char \<Rightarrow> string \<Rightarrow> string" where
  "after_first c str = drop 1 (dropWhile (\<lambda>x. x \<noteq> c) str)"

text \<open>The header of a data URL is what precedes its comma; the MIME segment is what stands
  between the colon of the header and the semicolon that follows.\<close>

definition header :: "string \<Rightarrow> string" where
  "header url = before_first CHR '','' url"

definition mime_segment :: "string \<Rightarrow> string" where
  "mime_segment url = before_first CHR '';'' (after_first CHR '':'' (header url))"

text \<open>A well-formed data URL, \<^verbatim>\<open>scheme:mime;encoding,payload\<close>: one comma, a colon in the
  header, and no second colon inside the MIME segment.\<close>

definition valid_data_url :: "string \<Rightarrow> bool" where
  "valid_data_url url =
     (count_list url CHR '','' = 1 \<and> CHR '':'' \<in> set (header url)
      \<and> CHR '':'' \<notin> set (mime_segment url))"

text \<open>A part the edit loop renders, and what it renders for it.\<close>

definition renderable :: "part \<Rightarrow> bool" where
  "renderable p = (inlineData p \<noteq> None \<or> truthy (part_text p))"

definition rendering :: "code_unit list \<Rightarrow> part \<Rightarrow> element list" where
  "rendering prompt p =
     (case inlineData p of
        Some d \<Rightarrow> [ImageElement (imageUrl d) prompt]
      | None \<Rightarrow> (case part_text p of
                   None \<Rightarrow> []
                 | Some t \<Rightarrow> if t = [] then [] else [Paragraph Model_text t]))"

text \<open>The inline-binary parts of a response, in order.\<close>

definition inline_parts :: "part list \<Rightarrow> inline_data list" where
  "inline_parts ps = List.map_filter inlineData ps"

text \<open>The timer discipline: identifiers are positive and below the next one, and the
  running interval timers are exactly the one recorded in \<^verbatim>\<open>loadingInterval\<close>, if any.\<close>

definition timers_ok :: "state \<Rightarrow> bool" where
  "timers_ok s =
     (0 < next_timer s \<and>
      (case loadingInterval s of
         None \<Rightarrow> timers s = []
       | Some t \<Rightarrow> 0 < t \<and> t < next_timer s \<and> map fst (timers s) = [t]))"

text \<open>The busy indicator is cleared and the trigger usable.\<close>

definition idle :: "state \<Rightarrow> bool" where
  "idle s = (loader_hidden s \<and> \<not> actionButton_disabled s \<and> loadingInterval s = None
     \<and> timers s = [])"

text \<open>The tasks of an orchestration cycle, as opposed to a file read.\<close>

fun in_cycle :: "task \<Rightarrow> bool" where
  "in_cycle (Reading result) = False"
| "in_cycle t = True"

text \<open>The download button is visible exactly when a download target is set.\<close>

definition download_consistent :: "state \<Rightarrow> bool" where
  "download_consistent s = (downloadButton_hidden s = (resultUrl s = None))"

text \<open>While a cycle is in flight nothing is offered for download.\<close>

definition nothing_offered :: "state \<Rightarrow> bool" where
  "nothing_offered s = (downloadButton_hidden s \<and> resultUrl s = None)"

section \<open>Properties of the string primitives\<close>

lemma js_split_notin: "sep \<notin> set str \<Longrightarrow> js_split sep str = [str]"
  by (induction str) auto

lemma js_split_in:
  "sep \<in> set str \<Longrightarrow>
   js_split sep str = before_first sep str # js_split sep (after_first sep str)"
  by (induction str) (auto simp: before_first_def after_first_def js_split_notin split: list.splits)

lemma js_split_nonempty: "js_split sep str \<noteq> []"
  by (induction str) (auto split: list.splits)

lemma length_js_split: "length (js_split sep str) = Suc (count_list str sep)"
  by (induction str) (auto split: list.splits)

lemma hd_js_split: "at (js_split sep str) 0 = Some (before_first sep str)"
  by (induction str) (auto simp: at_def before_first_def split: list.splits)

lemma count_after_first:
  "count_list (after_first sep str) sep = count_list str sep - 1"
  by (induction str) (auto simp: after_first_def)

lemma count_pos_in: "0 < count_list str sep \<Longrightarrow> sep \<in> set str"
  by (induction str) (auto split: if_splits)

lemma count_zero_notin: "count_list str sep = 0 \<Longrightarrow> sep \<notin> set str"
  by (induction str) (auto split: if_splits)

lemma js_split_one:
  assumes "count_list str sep = 1"
  shows "js_split sep str = [before_first sep str, after_first sep str]"
proof -
  have "sep \<in> set str" using assms count_pos_in[of str sep] by simp
  moreover have "sep \<notin> set (after_first sep str)"
    using assms count_zero_notin[of "after_first sep str" sep] by (simp add: count_after_first)
  ultimately show ?thesis by (simp add: js_split_in js_split_notin)
qed

lemma takeWhile_twice:
  "c \<notin> set (takeWhile (\<lambda>x. x \<noteq> d) str) \<Longrightarrow>
   takeWhile (\<lambda>x. x \<noteq> d) (takeWhile (\<lambda>x. x \<noteq> c) str) = takeWhile (\<lambda>x. x \<noteq> d) str"
  by (induction str) auto

lemma at_pair: "at [x, y] 0 = Some x" "at [x, y] (Suc 0) = Some y"
  by (simp_all add: at_def)

lemma at_js_split_1:
  "sep \<in> set str \<Longrightarrow> at (js_split sep str) 1 = Some (before_first sep (after_first sep str))"
proof -
  assume "sep \<in> set str"
  then have "js_split sep str = before_first sep str # js_split sep (after_first sep str)"
    by (rule js_split_in)
  moreover have "js_split sep (after_first sep str) \<noteq> []" by (rule js_split_nonempty)
  moreover have "at (js_split sep (after_first sep str)) 0
                  = Some (before_first sep (after_first sep str))" by (rule hd_js_split)
  ultimately show ?thesis by (auto simp: at_def)
qed

lemma trim_empty_iff: "trim str = [] \<longleftrightarrow> (\<forall>c\<in>set str. is_whitespace c)"
proof
  assume "trim str = []"
  then have a: "\<forall>x\<in>set (dropWhile is_whitespace str). is_whitespace x"
    by (simp add: trim_def dropWhile_eq_Nil_conv)
  have "dropWhile is_whitespace str = []"
  proof (rule ccontr)
    assume n: "dropWhile is_whitespace str \<noteq> []"
    then have "\<not> is_whitespace (hd (dropWhile is_whitespace str))" by (rule hd_dropWhile)
    moreover have "hd (dropWhile is_whitespace str) \<in> set (dropWhile is_whitespace str)"
      using n by simp
    ultimately show False using a by blast
  qed
  then show "\<forall>c\<in>set str. is_whitespace c" by (simp add: dropWhile_eq_Nil_conv)
next
  assume "\<forall>c\<in>set str. is_whitespace c"
  then have e: "dropWhile is_whitespace str = []" by (simp add: dropWhile_eq_Nil_conv)
  show "trim str = []" unfolding trim_def e by simp
qed

section \<open>Media encoder\<close>

text \<open>
  Claim C2. For every valid upload, that is every well-formed data URL, \<^verbatim>\<open>onload\<close> accepts
  it, the stored MIME type is the substring of the header between the colon and the
  semicolon, and the stored data is the substring after the first comma.
\<close>

theorem valid_upload_stored:
  assumes "valid_data_url url"
  shows "\<exists>s'. reader_onload url s = Inr s'
           \<and> imageMimeType s' = Some (mime_segment url)
           \<and> imageBase64 s' = Some (after_first CHR '','' url)"
proof -
  from assms have one: "count_list url CHR '','' = 1"
    and colon: "CHR '':'' \<in> set (header url)"
    and nocolon: "CHR '':'' \<notin> set (mime_segment url)"
    by (simp_all add: valid_data_url_def)
  have parts: "js_split CHR '','' url = [header url, after_first CHR '','' url]"
    using js_split_one[OF one] by (simp add: header_def)
  have p: "at (js_split CHR '':'' (header url)) (Suc 0)
             = Some (before_first CHR '':'' (after_first CHR '':'' (header url)))"
    using at_js_split_1[OF colon] by simp
  have m: "at (js_split CHR '';'' (before_first CHR '':'' (after_first CHR '':'' (header url)))) 0
             = Some (mime_segment url)"
    using nocolon takeWhile_twice[of "CHR '':''" "CHR '';''" "after_first CHR '':'' (header url)"]
    by (simp add: hd_js_split mime_segment_def before_first_def)
  show ?thesis
    by (simp add: reader_onload_def parts at_pair p m)
qed

theorem valid_upload_stored_witness:
  "valid_data_url ''data:image/png;base64,AAAA''
   \<and> (\<exists>s'. reader_onload ''data:image/png;base64,AAAA'' (initial ''k'') = Inr s'
           \<and> imageMimeType s' = Some ''image/png''
           \<and> imageBase64 s' = Some ''AAAA'')"
proof -
  have v: "valid_data_url ''data:image/png;base64,AAAA''"
    by (simp add: valid_data_url_def header_def mime_segment_def before_first_def after_first_def)
  have "mime_segment ''data:image/png;base64,AAAA'' = ''image/png''"
    by (simp add: header_def mime_segment_def before_first_def after_first_def)
  moreover have "after_first CHR '','' ''data:image/png;base64,AAAA'' = ''AAAA''"
    by (simp add: after_first_def)
  ultimately show ?thesis using v valid_upload_stored[OF v, of "initial ''k''"] by simp
qed

text \<open>
  Claim C10. A data URL with more than one comma is rejected as malformed, since the comma
  split must give exactly two pieces: \<^verbatim>\<open>onload\<close> throws, and neither the stored data nor
  the stored MIME type changes (the page only gains the browser's console entry).
\<close>

theorem several_commas_rejected:
  assumes "2 \<le> count_list url CHR '',''"
  shows "reader_onload url s = Inl (Error ''Invalid data URL format'')
         \<and> imageBase64 (deliver_load url s) = imageBase64 s
         \<and> imageMimeType (deliver_load url s) = imageMimeType s
         \<and> fst (resume (Reading url) Loaded s) = s\<lparr>console := console s @ [(''Uncaught'', Error ''Invalid data URL format'')]\<rparr>"
proof -
  have "length (js_split CHR '','' url) \<noteq> 2" using assms by (simp add: length_js_split)
  then have "reader_onload url s = Inl (Error ''Invalid data URL format'')"
    by (simp add: reader_onload_def Let_def)
  then show ?thesis by (simp add: deliver_load_def)
qed

theorem several_commas_rejected_witness:
  "2 \<le> count_list ''data:image/png;base64,AA,AA'' CHR '',''
   \<and> reader_onload ''data:image/png;base64,AA,AA'' (initial ''k'') = Inl (Error ''Invalid data URL format'')
   \<and> imageBase64 (deliver_load ''data:image/png;base64,AA,AA'' (initial ''k'')) = None"
proof -
  have c: "2 \<le> count_list ''data:image/png;base64,AA,AA'' CHR '',''" by simp
  show ?thesis using c several_commas_rejected[OF c, of "initial ''k''"]
    by (simp add: initial_def)
qed

text \<open>
  Claim C1, at a data URL without a comma. The upload is selected and its \<^verbatim>\<open>onload\<close>
  delivered: the callback throws, the exception is outside the \<^verbatim>\<open>try\<close> block of the
  listener, so the \<^verbatim>\<open>catch\<close> clause with its alert does not run. The state is unchanged
  except for the browser's console entry, and no alert is shown.
\<close>

theorem malformed_upload_no_alert:
  "reader_onload ''data:'' s = Inl (Error ''Invalid data URL format'')
   \<and> fire (Deliver 0 Loaded)
        (fire (ImageUploadChange (Some \<lparr>read_throws = None, data_url = ''data:''\<rparr>))
           (s, []))
      = (s\<lparr>console := console s @ [(''Uncaught'', Error ''Invalid data URL format'')]\<rparr>, [])
   \<and> alerts (fst (fire (Deliver 0 Loaded)
        (fire (ImageUploadChange (Some \<lparr>read_throws = None, data_url = ''data:''\<rparr>))
           (s, [])))) = alerts s"
proof -
  have r: "reader_onload ''data:'' s = Inl (Error ''Invalid data URL format'')"
    by (simp add: reader_onload_def)
  show ?thesis
    by (simp add: r imageUpload_change_def pending_def deliver_load_def)
qed

section \<open>Validation before a cycle\<close>

lemma click_no_media:
  assumes "\<not> truthy (imageBase64 s) \<or> \<not> truthy (imageMimeType s)"
  shows "actionButton_click s = (s\<lparr>alerts := alerts s @ [msg_no_image]\<rparr>, None)"
proof (cases "imageBase64 s")
  case None
  then show ?thesis by (simp add: actionButton_click_def)
next
  case b: (Some base64Data)
  show ?thesis
  proof (cases "imageMimeType s")
    case None
    then show ?thesis using b by (simp add: actionButton_click_def)
  next
    case (Some m)
    then have "base64Data = [] \<or> m = []" using assms b by (simp add: truthy_def)
    then show ?thesis using b Some by (simp add: actionButton_click_def)
  qed
qed

lemma click_blank_prompt:
  assumes "truthy (imageBase64 s)" "truthy (imageMimeType s)"
    and "\<forall>c\<in>set (promptInput_value s). is_whitespace c"
  shows "actionButton_click s = (s\<lparr>alerts := alerts s @ [msg_no_prompt]\<rparr>, None)"
proof -
  from assms(1) obtain b where b: "imageBase64 s = Some b" "b \<noteq> []"
    by (auto simp: truthy_def split: option.splits)
  from assms(2) obtain m where m: "imageMimeType s = Some m" "m \<noteq> []"
    by (auto simp: truthy_def split: option.splits)
  have "trim (promptInput_value s) = []" using assms(3) by (simp add: trim_empty_iff)
  then show ?thesis using b m by (simp add: actionButton_click_def)
qed

text \<open>
  Claim C7. When the media is missing (either module variable falsy) or the prompt is empty
  or consists only of code units that \<^verbatim>\<open>trim\<close> removes, the click ends at once: no handler is left waiting, no
  request is recorded, and the state is the old one with one more alert.
\<close>

theorem validation_failure_only_alerts:
  assumes "\<not> truthy (imageBase64 s) \<or> \<not> truthy (imageMimeType s)
           \<or> (\<forall>c\<in>set (promptInput_value s). is_whitespace c)"
  shows "\<exists>msg. actionButton_click s = (s\<lparr>alerts := alerts s @ [msg]\<rparr>, None)
           \<and> execute rs s = (s\<lparr>alerts := alerts s @ [msg]\<rparr>, None)
           \<and> trace (fst (execute rs s)) = trace s
           \<and> resultUrl (fst (execute rs s)) = resultUrl s"
proof -
  have "\<exists>msg. actionButton_click s = (s\<lparr>alerts := alerts s @ [msg]\<rparr>, None)"
  proof (cases "\<not> truthy (imageBase64 s) \<or> \<not> truthy (imageMimeType s)")
    case True
    then show ?thesis using click_no_media by blast
  next
    case False
    then show ?thesis using assms click_blank_prompt by blast
  qed
  then obtain msg where c: "actionButton_click s = (s\<lparr>alerts := alerts s @ [msg]\<rparr>, None)" ..
  have e: "execute rs s = (s\<lparr>alerts := alerts s @ [msg]\<rparr>, None)"
    by (simp add: execute_def c)
  show ?thesis
    apply (rule exI[of _ msg])
    apply (simp only: c e fst_conv)
    apply simp
    done
qed

theorem validation_failure_only_alerts_witness:
  "is_whitespace 0x3000 \<and> is_whitespace 0x0020
   \<and> (\<exists>msg. execute [] ((initial ''k'')\<lparr>imageBase64 := Some ''AAAA'', imageMimeType := Some ''image/png'', promptInput_value := [0x3000, 0x0020]\<rparr>)
         = ((initial ''k'')\<lparr>imageBase64 := Some ''AAAA'', imageMimeType := Some ''image/png'', promptInput_value := [0x3000, 0x0020], alerts := [msg]\<rparr>, None))"
proof -
  let ?s = "(initial ''k'')\<lparr>imageBase64 := Some ''AAAA'', imageMimeType := Some ''image/png'', promptInput_value := [0x3000, 0x0020]\<rparr>"
  have w: "\<forall>c\<in>set [0x3000, 0x0020 :: code_unit]. is_whitespace c" by (simp add: is_whitespace_def)
  then have h: "\<not> truthy (imageBase64 ?s) \<or> \<not> truthy (imageMimeType ?s)
           \<or> (\<forall>c\<in>set (promptInput_value ?s). is_whitespace c)" by simp
  have a: "alerts ?s = []" by (simp add: initial_def)
  have "is_whitespace 0x3000 \<and> is_whitespace 0x0020" by (simp add: is_whitespace_def)
  then show ?thesis using validation_failure_only_alerts[OF h, of "[]"] unfolding a by auto
qed

section \<open>The timer discipline\<close>

lemma clear_single:
  "map fst ts = [t] \<Longrightarrow> filter (\<lambda>(t', i). t' \<noteq> t) ts = []"
  by (cases ts) auto

lemma setLoading_timers:
  assumes "timers_ok s"
  shows "timers (setLoading b m s) = [] \<and> loadingInterval (setLoading b m s) = None
         \<and> next_timer (setLoading b m s) = next_timer s"
proof (cases "loadingInterval s")
  case None
  then show ?thesis using assms by (simp add: setLoading_def timers_ok_def Let_def)
next
  case (Some t)
  then have "0 < t" "map fst (timers s) = [t]" using assms by (simp_all add: timers_ok_def)
  then show ?thesis using Some
    by (simp add: setLoading_def clearInterval_def clear_single Let_def)
qed

lemma setLoading_ok: "timers_ok s \<Longrightarrow> timers_ok (setLoading b m s)"
  using setLoading_timers[of s b m] by (simp add: timers_ok_def)

lemma setLoading_False_flags:
  "loader_hidden (setLoading False m s) \<and> \<not> actionButton_disabled (setLoading False m s)"
  by (simp add: setLoading_def clearInterval_def Let_def split: option.splits)

lemma setLoading_False_idle: "timers_ok s \<Longrightarrow> idle (setLoading False m s)"
  using setLoading_timers[of s False m] setLoading_False_flags[of m s] by (simp add: idle_def)

lemma timers_ok_cong:
  "timers s' = timers s \<Longrightarrow> next_timer s' = next_timer s \<Longrightarrow>
   loadingInterval s' = loadingInterval s \<Longrightarrow> timers_ok s' = timers_ok s"
  by (simp add: timers_ok_def split: option.splits)

lemma displayError_ok: "timers_ok (displayError msg s) = timers_ok s"
  by (rule timers_ok_cong) (simp_all add: displayError_def)

lemma edit_catch_ok: "timers_ok (edit_catch e s) = timers_ok s"
  by (rule timers_ok_cong) (simp_all add: edit_catch_def displayError_def)

lemma video_catch_ok: "timers_ok (video_catch e s) = timers_ok s"
  by (rule timers_ok_cong) (simp_all add: video_catch_def displayError_def)

lemma show_video_ok: "timers_ok (show_video u s) = timers_ok s"
  by (rule timers_ok_cong) (simp_all add: show_video_def)

lemma render_parts_frame:
  "timers (fst (render_parts prompt ps s f)) = timers s
   \<and> next_timer (fst (render_parts prompt ps s f)) = next_timer s
   \<and> loadingInterval (fst (render_parts prompt ps s f)) = loadingInterval s"
  by (induction ps arbitrary: s f) (simp_all split: option.splits)

lemma render_parts_ok: "timers_ok (fst (render_parts prompt ps s f)) = timers_ok s"
  by (rule timers_ok_cong) (simp_all add: render_parts_frame)

lemma render_response_ok: "timers_ok (render_response prompt r s) = timers_ok s"
proof -
  have c: "timers_ok (s\<lparr>resultContainer := []\<rparr>) = timers_ok s"
    by (rule timers_ok_cong) simp_all
  show ?thesis
  proof (cases "candidates r")
    case None
    then show ?thesis by (simp add: render_response_def displayError_ok c)
  next
    case (Some cs)
    show ?thesis
    proof (cases cs)
      case Nil
      then show ?thesis using Some by (simp add: render_response_def displayError_ok c)
    next
      case (Cons c' cs')
      show ?thesis
      proof (cases "content_parts c'")
        case None
        then show ?thesis using Some Cons by (simp add: render_response_def edit_catch_ok c)
      next
        case ps: (Some ps)
        obtain s2 f where r: "render_parts prompt ps (s\<lparr>resultContainer := []\<rparr>) False = (s2, f)"
          by (cases "render_parts prompt ps (s\<lparr>resultContainer := []\<rparr>) False")
        then have "timers_ok s2 = timers_ok s"
          using render_parts_ok[of prompt ps "s\<lparr>resultContainer := []\<rparr>" False] c by simp
        then show ?thesis using Some Cons ps r by (simp add: render_response_def displayError_ok)
      qed
    qed
  qed
qed

lemma trace_ok: "timers_ok (s\<lparr>trace := x\<rparr>) = timers_ok s"
  by (rule timers_ok_cong) simp_all

lemma edit_start_ok:
  "timers_ok s \<Longrightarrow> timers_ok (fst (editImageWithGemini_start prompt b m s))"
  by (simp add: editImageWithGemini_start_def Let_def trace_ok setLoading_ok)

lemma video_start_timers:
  assumes "timers_ok s"
  shows "timers (fst (generateVideoWithGemini_start prompt b m s)) = [(next_timer s, 0)]
     \<and> loadingInterval (fst (generateVideoWithGemini_start prompt b m s)) = Some (next_timer s)
     \<and> next_timer (fst (generateVideoWithGemini_start prompt b m s)) = Suc (next_timer s)"
  using setLoading_timers[OF assms, of True "at loadingMessages 0"]
  by (simp add: generateVideoWithGemini_start_def setInterval_def Let_def)

lemma video_start_ok:
  assumes "timers_ok s"
  shows "timers_ok (fst (generateVideoWithGemini_start prompt b m s))"
  using video_start_timers[OF assms, of prompt b m] assms by (simp add: timers_ok_def)

lemma check_operation_ok:
  "timers_ok s \<Longrightarrow> timers_ok (fst (check_operation operation s))"
  by (simp add: check_operation_def trace_ok setLoading_ok displayError_ok split: option.splits)

lemma check_operation_idle:
  "timers_ok s \<Longrightarrow> check_operation operation s = (s', None) \<Longrightarrow> idle s'"
  by (auto simp: check_operation_def setLoading_False_idle displayError_ok split: option.splits if_splits)

lemma check_operation_cycle:
  "check_operation operation s = (s', Some t) \<Longrightarrow> in_cycle t"
  by (auto simp: check_operation_def split: option.splits if_splits)

lemma deliver_load_ok: "timers_ok (deliver_load result s) = timers_ok s"
  by (rule timers_ok_cong)
     (simp_all add: deliver_load_def reader_onload_def Let_def split: sum.splits option.splits if_splits)

lemma resume_ok: "timers_ok s \<Longrightarrow> timers_ok (fst (resume t r s))"
  by (cases "(t, r, s)" rule: resume.cases)
     (simp_all add: deliver_load_ok setLoading_ok render_response_ok edit_catch_ok
        video_catch_ok show_video_ok check_operation_ok trace_ok)

lemma resume_idle:
  "timers_ok s \<Longrightarrow> in_cycle t \<Longrightarrow> resume t r s = (s', None) \<Longrightarrow> idle s'"
  by (cases "(t, r, s)" rule: resume.cases)
     (auto simp: setLoading_False_idle render_response_ok edit_catch_ok
        video_catch_ok show_video_ok check_operation_idle)

lemma resume_cycle:
  "in_cycle t \<Longrightarrow> resume t r s = (s', Some t') \<Longrightarrow> in_cycle t'"
  by (cases "(t, r, s)" rule: resume.cases) (auto simp: check_operation_cycle)

lemma run_idle:
  "timers_ok s \<Longrightarrow> in_cycle t \<Longrightarrow> run (Some t) rs s = (s', None) \<Longrightarrow> idle s'"
proof (induction rs arbitrary: s t)
  case Nil
  then show ?case by simp
next
  case (Cons r rs)
  obtain s1 t1 where r: "resume t r s = (s1, t1)" by (cases "resume t r s")
  have ok: "timers_ok s1" using resume_ok[OF Cons.prems(1), of t r] r by simp
  show ?case
  proof (cases t1)
    case None
    then have "s' = s1" using Cons.prems(3) r by simp
    then show ?thesis using resume_idle[OF Cons.prems(1,2)] r None by simp
  next
    case (Some t2)
    then have "in_cycle t2" using resume_cycle[OF Cons.prems(2)] r by simp
    moreover have "run (Some t2) rs s1 = (s', None)" using Cons.prems(3) r Some by simp
    ultimately show ?thesis using Cons.IH ok by blast
  qed
qed

lemma map_fst_retag:
  "map (fst \<circ> (\<lambda>(t', j). if t' = t then (t', k) else (t', j))) xs = map fst xs"
  by (induction xs) auto

lemma tick_ok: "timers_ok (tick t s) = timers_ok s"
  by (cases "map_of (timers s) t")
     (simp_all add: tick_def timers_ok_def Let_def map_fst_retag split: option.splits)

lemma upload_change_ok: "timers_ok (fst (imageUpload_change f s)) = timers_ok s"
  by (rule timers_ok_cong) (simp_all add: imageUpload_change_def split: option.splits)

lemma download_click_ok: "timers_ok (downloadButton_click s) = timers_ok s"
  by (rule timers_ok_cong) (simp_all add: downloadButton_click_def split: option.splits)

lemma mode_change_ok:
  "timers_ok (modeEdit_change c s) = timers_ok s"
  "timers_ok (modeVideo_change c s) = timers_ok s"
  "timers_ok (promptExamples_change v s) = timers_ok s"
  "timers_ok (s\<lparr>promptInput_value := v\<rparr>) = timers_ok s"
  "timers_ok (s\<lparr>alerts := a\<rparr>) = timers_ok s"
  "timers_ok (s\<lparr>resultPlaceholder_hidden := h\<rparr>) = timers_ok s"
  by (rule timers_ok_cong;
      simp add: modeEdit_change_def modeVideo_change_def promptExamples_change_def)+

lemma action_click_ok: "timers_ok s \<Longrightarrow> timers_ok (fst (actionButton_click s))"
  by (simp add: actionButton_click_def Let_def mode_change_ok edit_start_ok video_start_ok
        split: option.splits)

lemma fire_ok: "timers_ok (fst p) \<Longrightarrow> timers_ok (fst (fire e p))"
proof (cases p)
  case (Pair s ts)
  assume ok: "timers_ok (fst p)"
  then have s: "timers_ok s" using Pair by simp
  show ?thesis
  proof (cases e)
    case ActionClick
    then show ?thesis using Pair s action_click_ok[OF s] by (simp add: case_prod_beta)
  next
    case (Deliver i r)
    then show ?thesis using Pair s resume_ok[OF s, of "ts ! i" r] by (simp add: case_prod_beta)
  qed (use Pair s in \<open>simp_all add: mode_change_ok tick_ok download_click_ok upload_change_ok
         case_prod_beta\<close>)
qed

lemma exec_ok: "timers_ok (fst p) \<Longrightarrow> timers_ok (fst (exec evs p))"
  by (induction evs arbitrary: p) (simp_all add: fire_ok)

lemma timers_ok_at_most_one: "timers_ok s \<Longrightarrow> length (timers s) \<le> 1"
proof -
  assume "timers_ok s"
  then have "length (map fst (timers s)) \<le> 1"
    by (cases "loadingInterval s") (simp_all add: timers_ok_def)
  then show ?thesis by simp
qed

lemma initial_ok: "timers_ok (initial key)"
  by (simp add: timers_ok_def initial_def)

text \<open>
  Claim C8. From a state that respects the timer discipline, after any sequence of events
  (listeners, resumed handlers and timer callbacks in any interleaving) at most one
  rotation timer is running; and starting the video cycle twice in a row leaves exactly
  the timer started last, which is the one recorded in \<^verbatim>\<open>loadingInterval\<close>.
\<close>

theorem one_rotation_timer:
  assumes "timers_ok s"
  shows "length (timers (fst (exec evs (s, ts)))) \<le> 1
       \<and> timers (fst (generateVideoWithGemini_start p2 b2 m2
            (fst (generateVideoWithGemini_start p1 b1 m1 s)))) = [(Suc (next_timer s), 0)]
       \<and> loadingInterval (fst (generateVideoWithGemini_start p2 b2 m2
            (fst (generateVideoWithGemini_start p1 b1 m1 s)))) = Some (Suc (next_timer s))"
proof -
  have "timers_ok (fst (exec evs (s, ts)))" using assms exec_ok[of "(s, ts)" evs] by simp
  then have a: "length (timers (fst (exec evs (s, ts)))) \<le> 1" by (rule timers_ok_at_most_one)
  let ?s1 = "fst (generateVideoWithGemini_start p1 b1 m1 s)"
  have ok1: "timers_ok ?s1" using assms by (rule video_start_ok)
  have n1: "next_timer ?s1 = Suc (next_timer s)" using video_start_timers[OF assms] by simp
  show ?thesis using a video_start_timers[OF ok1, of p2 b2 m2] n1 by simp
qed

theorem one_rotation_timer_witness:
  "timers_ok (initial ''k'')
   \<and> timers (fst (generateVideoWithGemini_start (units ''p'') ''b'' ''m''
        (fst (generateVideoWithGemini_start (units ''p'') ''b'' ''m'' (initial ''k''))))) = [(2, 0)]"
proof -
  have n: "next_timer (initial ''k'') = 1" by (simp add: initial_def)
  show ?thesis
    using initial_ok[of "''k''"] one_rotation_timer[OF initial_ok, of "[]" "''k''" "[]" "units ''p''" "''b''" "''m''" "units ''p''" "''b''" "''m''"]
    by (simp add: n)
qed

section \<open>Leaving a cycle\<close>

lemma setLoading_False_frame:
  "resultContainer (setLoading False m s) = resultContainer s
   \<and> resultUrl (setLoading False m s) = resultUrl s
   \<and> downloadButton_hidden (setLoading False m s) = downloadButton_hidden s
   \<and> trace (setLoading False m s) = trace s
   \<and> console (setLoading False m s) = console s
   \<and> alerts (setLoading False m s) = alerts s"
  by (simp add: setLoading_def clearInterval_def Let_def split: option.splits)

lemma setLoading_True_frame:
  "resultUrl (setLoading True m s) = None
   \<and> downloadButton_hidden (setLoading True m s)
   \<and> trace (setLoading True m s) = trace s
   \<and> console (setLoading True m s) = console s
   \<and> alerts (setLoading True m s) = alerts s
   \<and> API_KEY (setLoading True m s) = API_KEY s"
  by (simp add: setLoading_def clearInterval_def Let_def split: option.splits)

lemma edit_catch_frame:
  "resultContainer (edit_catch e s) = [Paragraph Error_text msg_edit_failed]
   \<and> downloadButton_hidden (edit_catch e s)
   \<and> console (edit_catch e s) = console s @ [(''Error calling Gemini API for image editing:'', e)]
   \<and> alerts (edit_catch e s) = alerts s"
  by (simp add: edit_catch_def displayError_def)

lemma video_catch_frame:
  "resultContainer (video_catch e s) = [Paragraph Error_text msg_video_failed]
   \<and> downloadButton_hidden (video_catch e s)
   \<and> console (video_catch e s) = console s @ [(''Error calling Gemini API for video generation:'', e)]
   \<and> alerts (video_catch e s) = alerts s"
  by (simp add: video_catch_def displayError_def)

lemma start_frame:
  "console (fst (editImageWithGemini_start prompt b m s)) = console s
   \<and> alerts (fst (editImageWithGemini_start prompt b m s)) = alerts s
   \<and> console (fst (generateVideoWithGemini_start prompt b m s)) = console s
   \<and> alerts (fst (generateVideoWithGemini_start prompt b m s)) = alerts s"
  using setLoading_True_frame[of None s] setLoading_True_frame[of "at loadingMessages 0" s]
  by (simp add: editImageWithGemini_start_def generateVideoWithGemini_start_def
        setInterval_def Let_def)

text \<open>The exit through the \<^verbatim>\<open>catch\<close> clause of the video function, at any of its four
  \<^verbatim>\<open>await\<close>s.\<close>

lemma video_rejected_exit:
  assumes "timers_ok s"
    and "t \<in> {AwaitGenerateVideos, AwaitGetVideosOperation, AwaitFetch, AwaitBlob}"
  shows "\<exists>s''. resume t (Rejected e) s = (s'', None) \<and> idle s''
           \<and> resultContainer s'' = [Paragraph Error_text msg_video_failed]
           \<and> downloadButton_hidden s''
           \<and> console s'' = console s @ [(''Error calling Gemini API for video generation:'', e)]
           \<and> alerts s'' = alerts s"
proof -
  let ?s = "setLoading False None (video_catch e s)"
  have r: "resume t (Rejected e) s = (?s, None)" using assms(2) by auto
  have i: "idle ?s" using assms(1) by (simp add: setLoading_False_idle video_catch_ok)
  show ?thesis
    using r i setLoading_False_frame[of None "video_catch e s"] video_catch_frame[of e s]
    by simp
qed

text \<open>The exit of the video function when the job is done without a locator.\<close>

lemma video_no_link_exit:
  assumes "timers_ok s" and "is_done operation" and "\<not> truthy (downloadLink operation)"
  shows "\<exists>s''. check_operation operation s = (s'', None) \<and> idle s''
           \<and> resultContainer s'' = [Paragraph Error_text msg_no_video]
           \<and> downloadButton_hidden s''"
proof -
  let ?s = "setLoading False None (displayError msg_no_video s)"
  have r: "check_operation operation s = (?s, None)"
    using assms(2,3) by (simp add: check_operation_def)
  have i: "idle ?s" using assms(1) by (simp add: setLoading_False_idle displayError_ok)
  show ?thesis
    using r i setLoading_False_frame[of None "displayError msg_no_video s"]
    by (simp add: displayError_def)
qed

text \<open>
  Claim C6. Every way out of a cycle clears the busy indicator and enables the trigger:
  the loader is hidden, the rotation timer cancelled and the action button enabled.
  Whenever an edit or a video cycle has returned, on whatever replies, this holds. And
  each exit is taken: an edit returns on its reply, be it content or a rejection; a video
  cycle returns when any of its four awaited calls (submission, status query, fetch, body)
  is rejected, when the job is done without a locator, after the submission or after a
  status query, and when the body of the video has arrived. On a rejection the fixed
  message of the \<^verbatim>\<open>catch\<close> clause is the only content of the result area, the download
  button is hidden, and the error goes to the console and nowhere else: no alert is shown.
  The statements about \<open>resume\<close> hold at whatever state, respecting the timer discipline,
  the suspended handler is resumed.
\<close>

theorem cycle_exit_idle:
  assumes "timers_ok s"
  shows "(editImageWithGemini prompt b m rs s = (s', None) \<longrightarrow> idle s')
       \<and> (generateVideoWithGemini prompt b m rs s = (s', None) \<longrightarrow> idle s')
       \<and> (\<exists>s''. editImageWithGemini prompt b m (Content r # rs) s = (s'', None) \<and> idle s'')
       \<and> (\<exists>s''. editImageWithGemini prompt b m (Rejected e # rs) s = (s'', None) \<and> idle s''
             \<and> resultContainer s'' = [Paragraph Error_text msg_edit_failed]
             \<and> downloadButton_hidden s''
             \<and> console s'' = console s @ [(''Error calling Gemini API for image editing:'', e)]
             \<and> alerts s'' = alerts s)
       \<and> (\<exists>s''. generateVideoWithGemini prompt b m (Rejected e # rs) s = (s'', None) \<and> idle s''
             \<and> resultContainer s'' = [Paragraph Error_text msg_video_failed]
             \<and> downloadButton_hidden s''
             \<and> console s'' = console s @ [(''Error calling Gemini API for video generation:'', e)]
             \<and> alerts s'' = alerts s)
       \<and> (is_done operation \<and> \<not> truthy (downloadLink operation) \<longrightarrow>
            (\<exists>s''. generateVideoWithGemini prompt b m (Job operation # rs) s = (s'', None)
               \<and> idle s'' \<and> resultContainer s'' = [Paragraph Error_text msg_no_video]
               \<and> downloadButton_hidden s''))
       \<and> (t \<in> {AwaitGenerateVideos, AwaitGetVideosOperation, AwaitFetch, AwaitBlob} \<longrightarrow>
            (\<exists>s''. resume t (Rejected e) s = (s'', None) \<and> idle s''
               \<and> resultContainer s'' = [Paragraph Error_text msg_video_failed]
               \<and> downloadButton_hidden s''
               \<and> console s'' = console s @ [(''Error calling Gemini API for video generation:'', e)]
               \<and> alerts s'' = alerts s))
       \<and> (is_done operation \<and> \<not> truthy (downloadLink operation) \<longrightarrow>
            (\<exists>s''. resume AwaitGetVideosOperation (Job operation) s = (s'', None)
               \<and> idle s'' \<and> resultContainer s'' = [Paragraph Error_text msg_no_video]
               \<and> downloadButton_hidden s''))
       \<and> (\<exists>s''. resume AwaitBlob (Blob body) s = (s'', None) \<and> idle s''
             \<and> resultUrl s'' = Some (createObjectURL body) \<and> \<not> downloadButton_hidden s'')"
proof -
  obtain s1 where e1: "editImageWithGemini_start prompt b m s = (s1, Some (AwaitGenerateContent prompt))"
    by (simp add: editImageWithGemini_start_def Let_def)
  have ok1: "timers_ok s1" using edit_start_ok[OF assms, of prompt b m] e1 by simp
  have f1: "console s1 = console s \<and> alerts s1 = alerts s"
    using start_frame[of prompt b m s] e1 by simp
  obtain s2 where e2: "generateVideoWithGemini_start prompt b m s = (s2, Some AwaitGenerateVideos)"
    by (simp add: generateVideoWithGemini_start_def setInterval_def Let_def)
  have ok2: "timers_ok s2" using video_start_ok[OF assms, of prompt b m] e2 by simp
  have f2: "console s2 = console s \<and> alerts s2 = alerts s"
    using start_frame[of prompt b m s] e2 by simp
  have c1: "editImageWithGemini prompt b m rs s = (s', None) \<longrightarrow> idle s'"
    using run_idle[OF ok1, of "AwaitGenerateContent prompt" rs s']
    by (simp add: editImageWithGemini_def e1)
  have c2: "generateVideoWithGemini prompt b m rs s = (s', None) \<longrightarrow> idle s'"
    using run_idle[OF ok2, of "AwaitGenerateVideos" rs s']
    by (simp add: generateVideoWithGemini_def e2)
  have c3: "\<exists>s''. editImageWithGemini prompt b m (Content r # rs) s = (s'', None) \<and> idle s''"
    using ok1 by (simp add: editImageWithGemini_def e1 setLoading_False_idle render_response_ok)
  have c4: "\<exists>s''. editImageWithGemini prompt b m (Rejected e # rs) s = (s'', None) \<and> idle s''
             \<and> resultContainer s'' = [Paragraph Error_text msg_edit_failed]
             \<and> downloadButton_hidden s''
             \<and> console s'' = console s @ [(''Error calling Gemini API for image editing:'', e)]
             \<and> alerts s'' = alerts s"
    using ok1 f1 setLoading_False_frame[of None "edit_catch e s1"] edit_catch_frame[of e s1]
    by (simp add: editImageWithGemini_def e1 setLoading_False_idle edit_catch_ok)
  have c5: "\<exists>s''. generateVideoWithGemini prompt b m (Rejected e # rs) s = (s'', None) \<and> idle s''
             \<and> resultContainer s'' = [Paragraph Error_text msg_video_failed]
             \<and> downloadButton_hidden s''
             \<and> console s'' = console s @ [(''Error calling Gemini API for video generation:'', e)]
             \<and> alerts s'' = alerts s"
    using ok2 f2 setLoading_False_frame[of None "video_catch e s2"] video_catch_frame[of e s2]
    by (simp add: generateVideoWithGemini_def e2 setLoading_False_idle video_catch_ok)
  have c6: "is_done operation \<and> \<not> truthy (downloadLink operation) \<longrightarrow>
            (\<exists>s''. generateVideoWithGemini prompt b m (Job operation # rs) s = (s'', None)
               \<and> idle s'' \<and> resultContainer s'' = [Paragraph Error_text msg_no_video]
               \<and> downloadButton_hidden s'')"
  proof
    assume d: "is_done operation \<and> \<not> truthy (downloadLink operation)"
    then obtain s'' where "check_operation operation s2 = (s'', None)" "idle s''"
      "resultContainer s'' = [Paragraph Error_text msg_no_video]" "downloadButton_hidden s''"
      using video_no_link_exit[OF ok2, of operation] by blast
    then show "\<exists>s''. generateVideoWithGemini prompt b m (Job operation # rs) s = (s'', None)
               \<and> idle s'' \<and> resultContainer s'' = [Paragraph Error_text msg_no_video]
               \<and> downloadButton_hidden s''"
      by (simp add: generateVideoWithGemini_def e2)
  qed
  have c7: "t \<in> {AwaitGenerateVideos, AwaitGetVideosOperation, AwaitFetch, AwaitBlob} \<longrightarrow>
            (\<exists>s''. resume t (Rejected e) s = (s'', None) \<and> idle s''
               \<and> resultContainer s'' = [Paragraph Error_text msg_video_failed]
               \<and> downloadButton_hidden s''
               \<and> console s'' = console s @ [(''Error calling Gemini API for video generation:'', e)]
               \<and> alerts s'' = alerts s)"
    using video_rejected_exit[OF assms, of t e] by blast
  have c8: "is_done operation \<and> \<not> truthy (downloadLink operation) \<longrightarrow>
            (\<exists>s''. resume AwaitGetVideosOperation (Job operation) s = (s'', None)
               \<and> idle s'' \<and> resultContainer s'' = [Paragraph Error_text msg_no_video]
               \<and> downloadButton_hidden s'')"
    using video_no_link_exit[OF assms, of operation] by simp
  have c9: "\<exists>s''. resume AwaitBlob (Blob body) s = (s'', None) \<and> idle s''
             \<and> resultUrl s'' = Some (createObjectURL body) \<and> \<not> downloadButton_hidden s''"
  proof -
    let ?s = "setLoading False None (show_video (createObjectURL body) s)"
    have "idle ?s" using assms by (simp add: setLoading_False_idle show_video_ok)
    moreover have "resultUrl ?s = Some (createObjectURL body) \<and> \<not> downloadButton_hidden ?s"
      using setLoading_False_frame[of None "show_video (createObjectURL body) s"]
      by (simp add: show_video_def)
    ultimately show ?thesis by simp
  qed
  show ?thesis
    by (intro conjI) (rule c1, rule c2, rule c3, rule c4, rule c5, rule c6, rule c7, rule c8, rule c9)
qed

theorem cycle_exit_idle_witness:
  "timers_ok (initial ''k'')
   \<and> snd (editImageWithGemini (units ''p'') ''b'' ''m'' [Content (Response None)] (initial ''k'')) = None
   \<and> idle (fst (editImageWithGemini (units ''p'') ''b'' ''m'' [Content (Response None)] (initial ''k'')))
   \<and> snd (generateVideoWithGemini (units ''p'') ''b'' ''m'' [Job (Operation True None)] (initial ''k'')) = None
   \<and> idle (fst (generateVideoWithGemini (units ''p'') ''b'' ''m'' [Job (Operation True None)] (initial ''k'')))
   \<and> is_done (Operation True None) \<and> \<not> truthy (downloadLink (Operation True None))
   \<and> snd (resume AwaitFetch (Rejected (Error ''network'')) (initial ''k'')) = None
   \<and> idle (fst (resume AwaitFetch (Rejected (Error ''network'')) (initial ''k'')))
   \<and> alerts (fst (resume AwaitFetch (Rejected (Error ''network'')) (initial ''k''))) = []"
proof -
  let ?e = "editImageWithGemini (units ''p'') ''b'' ''m'' [Content (Response None)] (initial ''k'')"
  let ?v = "generateVideoWithGemini (units ''p'') ''b'' ''m'' [Job (Operation True None)] (initial ''k'')"
  let ?f = "resume AwaitFetch (Rejected (Error ''network'')) (initial ''k'')"
  have e: "snd ?e = None"
    by (simp add: editImageWithGemini_def editImageWithGemini_start_def Let_def)
  have v: "snd ?v = None"
    by (simp add: generateVideoWithGemini_def generateVideoWithGemini_start_def setInterval_def
          check_operation_def downloadLink_def truthy_def Let_def)
  have d: "is_done (Operation True None) \<and> \<not> truthy (downloadLink (Operation True None))"
    by (simp add: downloadLink_def truthy_def)
  have m: "AwaitFetch \<in> {AwaitGenerateVideos, AwaitGetVideosOperation, AwaitFetch, AwaitBlob}"
    by simp
  have a: "alerts (initial ''k'') = []" by (simp add: initial_def)
  have e': "?e = (fst ?e, None)" using e by (metis prod.collapse)
  have v': "?v = (fst ?v, None)" using v by (metis prod.collapse)
  note w1 = cycle_exit_idle[OF initial_ok, of "units ''p''" "''b''" "''m''"
      "[Content (Response None)]" "''k''" "fst ?e" "Response None" "Error ''network''"
      "Operation True None" AwaitFetch "''id''"]
  note w2 = cycle_exit_idle[OF initial_ok, of "units ''p''" "''b''" "''m''"
      "[Job (Operation True None)]" "''k''" "fst ?v" "Response None" "Error ''network''"
      "Operation True None" AwaitFetch "''id''"]
  have i1: "idle (fst ?e)" using w1 e' by blast
  have i2: "idle (fst ?v)" using w2 v' by blast
  have i3: "snd ?f = None \<and> idle (fst ?f) \<and> alerts (fst ?f) = []"
    using w1 m a by auto
  show ?thesis using initial_ok[of "''k''"] e v d i1 i2 i3 by simp
qed

section \<open>Video polling\<close>

text \<open>
  Claim C4. When the job handle is not done after submission, not done after the first
  status query and done after the second, with one generated video that carries a
  locator, the cycle issues, in this order, the submission, a ten-second wait and a status
  query, a second ten-second wait and status query, and then the fetch of the locator
  with the key appended; it returns with the video shown, its object URL as the download
  target and the download button visible.
\<close>

theorem video_polling_two_waits:
  assumes "\<not> is_done op0" and "\<not> is_done op1" and "is_done op2"
    and "op_response op2 = Some (VideosResponse (Some [GeneratedVideo (Some (MkVideo (Some link)))]))"
    and "link \<noteq> []"
  shows "\<exists>s'. generateVideoWithGemini prompt b m
                 [Job op0, Elapsed, Job op1, Elapsed, Job op2, Fetched, Blob body] s = (s', None)
          \<and> trace s' = trace s @
               [GenerateVideos prompt b m,
                SetTimeout 10000, GetVideosOperation op0,
                SetTimeout 10000, GetVideosOperation op1,
                Fetch (link @ ''&key='' @ API_KEY s)]
          \<and> resultUrl s' = Some (createObjectURL body)
          \<and> resultContainer s' = [VideoElement (createObjectURL body)]
          \<and> \<not> downloadButton_hidden s'"
proof -
  have l: "downloadLink op2 = Some link"
    using assms(4) by (simp add: downloadLink_def at_def)
  have t: "truthy (downloadLink op2)" using l assms(5) by (simp add: truthy_def)
  show ?thesis
    using assms(1-3) l t setLoading_True_frame[of "at loadingMessages 0" s]
    by (simp add: generateVideoWithGemini_def generateVideoWithGemini_start_def setInterval_def
          check_operation_def show_video_def setLoading_False_frame Let_def)
qed

theorem video_polling_two_waits_witness:
  "\<exists>s'. generateVideoWithGemini (units ''p'') ''b'' ''m''
           [Job (Operation False None), Elapsed, Job (Operation False None), Elapsed,
            Job (Operation True (Some (VideosResponse (Some [GeneratedVideo (Some (MkVideo (Some ''https://v/1?x=1'')))])))),
            Fetched, Blob ''id''] (initial ''k'') = (s', None)
      \<and> trace s' =
           [GenerateVideos (units ''p'') ''b'' ''m'',
            SetTimeout 10000, GetVideosOperation (Operation False None),
            SetTimeout 10000, GetVideosOperation (Operation False None),
            Fetch ''https://v/1?x=1&key=k'']
      \<and> resultUrl s' = Some ''blob:id''
      \<and> resultContainer s' = [VideoElement ''blob:id'']
      \<and> \<not> downloadButton_hidden s'"
  using video_polling_two_waits[of "Operation False None" "Operation False None"
      "Operation True (Some (VideosResponse (Some [GeneratedVideo (Some (MkVideo (Some ''https://v/1?x=1'')))])))"
      "''https://v/1?x=1''" "units ''p''" "''b''" "''m''" "''id''" "initial ''k''"]
  by (simp add: initial_def createObjectURL_def)

section \<open>Rendering the reply of an edit\<close>

lemma render_parts_spec:
  "resultContainer (fst (render_parts prompt ps s f))
     = resultContainer s @ concat (map (rendering prompt) ps)
   \<and> snd (render_parts prompt ps s f) = (f \<or> (\<exists>p\<in>set ps. renderable p))
   \<and> resultUrl (fst (render_parts prompt ps s f))
     = (if inline_parts ps = [] then resultUrl s else Some (imageUrl (last (inline_parts ps))))
   \<and> downloadButton_hidden (fst (render_parts prompt ps s f))
     = (inline_parts ps = [] \<and> downloadButton_hidden s)"
proof (induction ps arbitrary: s f)
  case Nil
  then show ?case by (simp add: inline_parts_def List.map_filter_simps)
next
  case (Cons p ps)
  show ?case
  proof (cases "inlineData p")
    case (Some d)
    then show ?thesis using Cons.IH
      by (simp add: rendering_def renderable_def inline_parts_def List.map_filter_simps)
  next
    case None
    then show ?thesis using Cons.IH
      by (auto simp: rendering_def renderable_def truthy_def inline_parts_def
            List.map_filter_simps split: option.splits)
  qed
qed

lemma edit_content:
  "editImageWithGemini prompt b m (Content r # rs) s
     = (setLoading False None
          (render_response prompt r
             ((setLoading True None s)\<lparr>trace := trace (setLoading True None s) @ [GenerateContent b m prompt]\<rparr>)),
        None)"
  by (simp add: editImageWithGemini_def editImageWithGemini_start_def Let_def)

text \<open>
  An empty reply. When the reply to an edit has no candidates, or its first candidate has a
  list of parts of which none is renderable, the cycle returns with the message for an
  empty reply as the only content of the result area, the download button hidden and no
  download target.
\<close>

theorem empty_response_shows_message:
  assumes "candidates r = None \<or> candidates r = Some []
           \<or> (\<exists>c cs ps. candidates r = Some (c # cs) \<and> content_parts c = Some ps
                 \<and> (\<forall>p\<in>set ps. \<not> renderable p))"
  shows "\<exists>s' msg. editImageWithGemini prompt b m [Content r] s = (s', None)
           \<and> msg \<in> {msg_no_response, msg_no_content}
           \<and> resultContainer s' = [Paragraph Error_text msg]
           \<and> downloadButton_hidden s' \<and> resultUrl s' = None"
proof -
  let ?s1 = "(setLoading True None s)\<lparr>trace := trace (setLoading True None s) @ [GenerateContent b m prompt]\<rparr>"
  let ?s0 = "?s1\<lparr>resultContainer := []\<rparr>"
  have u: "resultUrl ?s0 = None" using setLoading_True_frame[of None s] by simp
  have "\<exists>msg\<in>{msg_no_response, msg_no_content}.
          resultContainer (render_response prompt r ?s1) = [Paragraph Error_text msg]
          \<and> downloadButton_hidden (render_response prompt r ?s1)
          \<and> resultUrl (render_response prompt r ?s1) = None"
    using assms
  proof (elim disjE exE conjE)
    assume "candidates r = None"
    then show ?thesis using u by (simp add: render_response_def displayError_def)
  next
    assume "candidates r = Some []"
    then show ?thesis using u by (simp add: render_response_def displayError_def)
  next
    fix c cs ps
    assume c: "candidates r = Some (c # cs)" "content_parts c = Some ps"
      and n: "\<forall>p\<in>set ps. \<not> renderable p"
    obtain s2 f where r: "render_parts prompt ps ?s0 False = (s2, f)"
      by (cases "render_parts prompt ps ?s0 False")
    have i: "inline_parts ps = []"
      using n by (auto simp: inline_parts_def renderable_def List.map_filter_def filter_empty_conv)
    have "\<not> f" using render_parts_spec[of prompt ps ?s0 False] r n by simp
    moreover have "resultUrl s2 = None"
      using render_parts_spec[of prompt ps ?s0 False] r i u by simp
    ultimately show ?thesis using c r
      by (simp add: render_response_def displayError_def)
  qed
  then show ?thesis
    unfolding edit_content using setLoading_False_frame by (metis (no_types, lifting))
qed

theorem empty_response_shows_message_witness:
  "\<not> renderable (Part None (Some ''''))
   \<and> (\<exists>s' msg. editImageWithGemini (units ''p'') ''b'' ''m''
         [Content (Response (Some [Candidate (Some [Part None (Some '''')])]))] (initial ''k'') = (s', None)
           \<and> msg \<in> {msg_no_response, msg_no_content}
           \<and> resultContainer s' = [Paragraph Error_text msg]
           \<and> downloadButton_hidden s' \<and> resultUrl s' = None)"
proof -
  have n: "\<forall>p\<in>set [Part None (Some '''')]. \<not> renderable p"
    by (simp add: renderable_def truthy_def)
  let ?r = "Response (Some [Candidate (Some [Part None (Some '''')])])"
  have h: "candidates ?r = None \<or> candidates ?r = Some []
           \<or> (\<exists>c cs ps. candidates ?r = Some (c # cs) \<and> content_parts c = Some ps
                 \<and> (\<forall>p\<in>set ps. \<not> renderable p))"
    using n by simp
  have "\<not> renderable (Part None (Some ''''))" using n by simp
  then show ?thesis
    using empty_response_shows_message[OF h, of "units ''p''" "''b''" "''m''" "initial ''k''"] by blast
qed

text \<open>
  Claim C5, at a reply whose first candidate has no content, as the service sends when it
  withholds the result. The reply has a candidate and no renderable part, yet the script
  reads \<^verbatim>\<open>content.parts\<close> without a test: the type error is caught by the \<^verbatim>\<open>catch\<close>
  clause, and the page shows the message of a failed request, which is neither of the two
  messages for an empty reply, with the type error on the console.
\<close>

theorem contentless_candidate_shows_failure:
  "\<exists>s'. editImageWithGemini prompt b m [Content (Response (Some (Candidate None # cs)))] s
           = (s', None)
        \<and> resultContainer s' = [Paragraph Error_text msg_edit_failed]
        \<and> downloadButton_hidden s'
        \<and> console s' = console s @
             [(''Error calling Gemini API for image editing:'',
               TypeError ''Cannot read properties of undefined (reading parts)'')]
        \<and> msg_edit_failed \<noteq> msg_no_response \<and> msg_edit_failed \<noteq> msg_no_content"
proof -
  let ?s1 = "(setLoading True None s)\<lparr>trace := trace (setLoading True None s) @ [GenerateContent b m prompt]\<rparr>"
  let ?e = "TypeError ''Cannot read properties of undefined (reading parts)''"
  have r: "render_response prompt (Response (Some (Candidate None # cs))) ?s1
             = edit_catch ?e (?s1\<lparr>resultContainer := []\<rparr>)"
    by (simp add: render_response_def)
  have c: "console (?s1\<lparr>resultContainer := []\<rparr>) = console s"
    using setLoading_True_frame[of None s] by simp
  have d: "msg_edit_failed \<noteq> msg_no_response \<and> msg_edit_failed \<noteq> msg_no_content"
    by (simp add: msg_edit_failed_def msg_no_response_def msg_no_content_def)
  show ?thesis
    unfolding edit_content r
    using c d edit_catch_frame[of ?e "?s1\<lparr>resultContainer := []\<rparr>"]
      setLoading_False_frame[of None "edit_catch ?e (?s1\<lparr>resultContainer := []\<rparr>)"]
    by simp
qed

text \<open>
  Claim C9. When the first candidate has parts of which at least one is renderable, the
  result area holds the renderings of the parts in the order of the reply (an image for a
  part with inline data, a paragraph for a part with text), and the download target is the
  data URL of the last part with inline data; the download button is visible exactly when
  there is such a part.
\<close>

theorem parts_rendered_in_order:
  assumes "candidates r = Some (c # cs)" and "content_parts c = Some ps"
    and "\<exists>p\<in>set ps. renderable p"
  shows "\<exists>s'. editImageWithGemini prompt b m [Content r] s = (s', None)
           \<and> resultContainer s' = concat (map (rendering prompt) ps)
           \<and> resultUrl s' =
               (if inline_parts ps = [] then None else Some (imageUrl (last (inline_parts ps))))
           \<and> downloadButton_hidden s' = (inline_parts ps = [])"
proof -
  let ?s1 = "(setLoading True None s)\<lparr>trace := trace (setLoading True None s) @ [GenerateContent b m prompt]\<rparr>"
  let ?s0 = "?s1\<lparr>resultContainer := []\<rparr>"
  have u: "resultUrl ?s0 = None" "downloadButton_hidden ?s0" "resultContainer ?s0 = []"
    using setLoading_True_frame[of None s] by simp_all
  obtain s2 f where r: "render_parts prompt ps ?s0 False = (s2, f)"
    by (cases "render_parts prompt ps ?s0 False")
  have f: "f" using render_parts_spec[of prompt ps ?s0 False] r assms(3) by simp
  have s2: "resultContainer s2 = concat (map (rendering prompt) ps)"
    "resultUrl s2 = (if inline_parts ps = [] then None else Some (imageUrl (last (inline_parts ps))))"
    "downloadButton_hidden s2 = (inline_parts ps = [])"
    using render_parts_spec[of prompt ps ?s0 False] r u by simp_all
  have "render_response prompt r ?s1 = s2"
    using assms(1,2) r f by (simp add: render_response_def)
  then show ?thesis unfolding edit_content using s2 setLoading_False_frame[of None s2] by simp
qed

theorem parts_rendered_in_order_witness:
  "renderable (Part None (Some ''one''))
   \<and> (\<exists>s'. editImageWithGemini (units ''p'') ''b'' ''m''
         [Content (Response (Some [Candidate (Some
            [Part None (Some ''one''), Part (Some (InlineData ''image/png'' ''AA'')) None,
             Part (Some (InlineData ''image/png'' ''BB'')) None, Part None (Some ''two'')])]))]
         (initial ''k'') = (s', None)
       \<and> resultContainer s' =
           [Paragraph Model_text ''one'', ImageElement ''data:image/png;base64,AA'' (units ''p''),
            ImageElement ''data:image/png;base64,BB'' (units ''p''), Paragraph Model_text ''two'']
       \<and> resultUrl s' = Some ''data:image/png;base64,BB''
       \<and> \<not> downloadButton_hidden s')"
proof -
  let ?ps = "[Part None (Some ''one''), Part (Some (InlineData ''image/png'' ''AA'')) None,
              Part (Some (InlineData ''image/png'' ''BB'')) None, Part None (Some ''two'')]"
  let ?c = "Candidate (Some ?ps)"
  have n: "\<exists>p\<in>set ?ps. renderable p" by (simp add: renderable_def truthy_def)
  have c: "candidates (Response (Some [?c])) = Some (?c # [])" by simp
  have p: "content_parts ?c = Some ?ps" by simp
  have i: "inline_parts ?ps = [InlineData ''image/png'' ''AA'', InlineData ''image/png'' ''BB'']"
    by (simp add: inline_parts_def List.map_filter_simps)
  have m: "concat (map (rendering (units ''p'')) ?ps) =
           [Paragraph Model_text ''one'', ImageElement ''data:image/png;base64,AA'' (units ''p''),
            ImageElement ''data:image/png;base64,BB'' (units ''p''), Paragraph Model_text ''two'']"
    by (simp add: rendering_def imageUrl_def)
  have "renderable (Part None (Some ''one''))" by (simp add: renderable_def truthy_def)
  then show ?thesis
    using parts_rendered_in_order[OF c p n, of "units ''p''" "''b''" "''m''" "initial ''k''"]
    unfolding i m by (simp add: imageUrl_def)
qed

section \<open>The download button and the download target\<close>

lemma setLoading_False_consistent:
  "download_consistent (setLoading False m s) = download_consistent s"
  using setLoading_False_frame[of m s] by (simp add: download_consistent_def)

lemma setLoading_True_nothing: "nothing_offered (setLoading True m s)"
  using setLoading_True_frame[of m s] by (simp add: nothing_offered_def)

lemma displayError_consistent:
  "resultUrl s = None \<Longrightarrow> download_consistent (displayError msg s)"
  by (simp add: download_consistent_def displayError_def)

lemma catch_consistent:
  "resultUrl s = None \<Longrightarrow> download_consistent (edit_catch e s)"
  "resultUrl s = None \<Longrightarrow> download_consistent (video_catch e s)"
  by (simp_all add: download_consistent_def edit_catch_def video_catch_def displayError_def)

lemma show_video_consistent: "download_consistent (show_video u s)"
  by (simp add: download_consistent_def show_video_def)

lemma render_response_consistent:
  assumes "nothing_offered s"
  shows "download_consistent (render_response prompt r s)"
proof -
  let ?s0 = "s\<lparr>resultContainer := []\<rparr>"
  have u: "resultUrl ?s0 = None" "downloadButton_hidden ?s0"
    using assms by (simp_all add: nothing_offered_def)
  show ?thesis
  proof (cases "candidates r")
    case None
    then show ?thesis using u by (simp add: render_response_def displayError_consistent)
  next
    case (Some cs)
    show ?thesis
    proof (cases cs)
      case Nil
      then show ?thesis using Some u by (simp add: render_response_def displayError_consistent)
    next
      case (Cons c cs')
      show ?thesis
      proof (cases "content_parts c")
        case None
        then show ?thesis using Some Cons u
          by (simp add: render_response_def catch_consistent)
      next
        case ps: (Some ps)
        obtain s2 f where r: "render_parts prompt ps ?s0 False = (s2, f)"
          by (cases "render_parts prompt ps ?s0 False")
        have c: "download_consistent s2"
          using render_parts_spec[of prompt ps ?s0 False] r u by (simp add: download_consistent_def)
        have "\<not> f \<Longrightarrow> resultUrl s2 = None"
          using render_parts_spec[of prompt ps ?s0 False] r u
          by (auto simp: inline_parts_def renderable_def List.map_filter_def filter_empty_conv)
        then show ?thesis using Some Cons ps r c
          by (simp add: render_response_def displayError_consistent)
      qed
    qed
  qed
qed

lemma check_operation_consistent:
  assumes "nothing_offered s" and "check_operation operation s = (s', t)"
  shows "case t of None \<Rightarrow> download_consistent s' | Some t' \<Rightarrow> nothing_offered s'"
  using assms
  by (auto simp: check_operation_def nothing_offered_def setLoading_False_consistent
        displayError_consistent split: option.splits if_splits)

lemma resume_consistent:
  assumes "nothing_offered s" and "in_cycle t" and "resume t r s = (s', t')"
  shows "case t' of None \<Rightarrow> download_consistent s' | Some u \<Rightarrow> nothing_offered s'"
proof (cases "(t, r, s)" rule: resume.cases)
  case (2 prompt r' s0)
  then show ?thesis using assms
    by (auto simp: setLoading_False_consistent render_response_consistent)
next
  case (4 operation s0)
  then show ?thesis using assms check_operation_consistent by auto
next
  case (7 operation s0)
  then show ?thesis using assms check_operation_consistent by auto
qed (use assms in \<open>auto simp: setLoading_False_consistent nothing_offered_def
       catch_consistent show_video_consistent\<close>)

lemma run_consistent:
  "nothing_offered s \<Longrightarrow> in_cycle t \<Longrightarrow> run (Some t) rs s = (s', t') \<Longrightarrow>
   (case t' of None \<Rightarrow> download_consistent s' | Some u \<Rightarrow> nothing_offered s')"
proof (induction rs arbitrary: s t)
  case Nil
  then show ?case by auto
next
  case (Cons r rs)
  obtain s1 t1 where r: "resume t r s = (s1, t1)" by (cases "resume t r s")
  note c = resume_consistent[OF Cons.prems(1,2) r]
  show ?case
  proof (cases t1)
    case None
    then show ?thesis using Cons.prems(3) r c by auto
  next
    case (Some t2)
    then have "in_cycle t2" using resume_cycle[OF Cons.prems(2)] r by simp
    moreover have "nothing_offered s1" using c Some by simp
    moreover have "run (Some t2) rs s1 = (s', t')" using Cons.prems(3) r Some by simp
    ultimately show ?thesis using Cons.IH by blast
  qed
qed

lemma nothing_offered_consistent: "nothing_offered s \<Longrightarrow> download_consistent s"
  by (simp add: nothing_offered_def download_consistent_def)

text \<open>
  A cycle that runs alone keeps the download button and the download target together:
  from the click to the last reply nothing is offered, and when the cycle has returned the
  button is visible exactly when a target is set.
\<close>

lemma serial_cycle_consistent:
  assumes "download_consistent s"
  shows "download_consistent (fst (execute rs s))"
proof -
  obtain s1 t1 where c: "actionButton_click s = (s1, t1)" by (cases "actionButton_click s")
  show ?thesis
  proof (cases t1)
    case None
    have "resultUrl s1 = resultUrl s \<and> downloadButton_hidden s1 = downloadButton_hidden s"
      using c None
      by (auto simp: actionButton_click_def editImageWithGemini_start_def
            generateVideoWithGemini_start_def setInterval_def Let_def
            split: option.splits if_splits)
    then show ?thesis using assms c None by (simp add: execute_def download_consistent_def)
  next
    case (Some t)
    have "nothing_offered s1 \<and> in_cycle t"
      using c Some setLoading_True_nothing
      by (auto simp: actionButton_click_def editImageWithGemini_start_def
            generateVideoWithGemini_start_def setInterval_def Let_def nothing_offered_def
            split: option.splits if_splits)
    then show ?thesis
      using run_consistent[of s1 t rs "fst (run (Some t) rs s1)" "snd (run (Some t) rs s1)"] c Some
      by (auto simp: execute_def nothing_offered_consistent split: option.splits)
  qed
qed

text \<open>
  Claim C3, at a sequence of events in which a second cycle starts while the first is in
  flight. An image is uploaded and an edit started; a second upload completes, and its
  \<^verbatim>\<open>onload\<close> enables the action button again although the edit is still waiting; a
  second edit is started; the first edit is answered with an image, the second with no
  candidates. The error presenter then hides the download button but leaves
  \<^verbatim>\<open>resultUrl\<close> as the first edit set it: the button is hidden while a download target
  is set.
\<close>

theorem reentrant_cycle_hides_set_target:
  "exec
     [ImageUploadChange (Some \<lparr>read_throws = None, data_url = ''data:image/png;base64,AAAA''\<rparr>),
      Deliver 0 Loaded,
      ActionClick,
      ImageUploadChange (Some \<lparr>read_throws = None, data_url = ''data:image/png;base64,AAAA''\<rparr>),
      Deliver 1 Loaded,
      ActionClick,
      Deliver 0 (Content (Response (Some
        [Candidate (Some [Part (Some (InlineData ''image/png'' ''BBBB'')) None])]))),
      Deliver 0 (Content (Response None))]
     (initial ''k'', [])
   = ((initial ''k'')
        \<lparr>imageBase64 := Some ''AAAA'', imageMimeType := Some ''image/png'',
          resultUrl := Some ''data:image/png;base64,BBBB'',
          originalImage_src := Some ''data:image/png;base64,AAAA'',
          originalImage_shown := True, uploadPlaceholder_hidden := True,
          actionButton_disabled := False,
          resultContainer := [Paragraph Error_text msg_no_response],
          resultPlaceholder_hidden := True, downloadButton_hidden := True,
          trace := [GenerateContent ''AAAA'' ''image/png'' initial_prompt,
                    GenerateContent ''AAAA'' ''image/png'' initial_prompt]\<rparr>, [])"
  by code_simp

end
